theory Spec2Isabelle
  imports Complex_Main "HOL-Library.AList"
begin

section \<open>The mReasoner wrapper (src/mreasoner/mreasoner.py)\<close>

text \<open>
  A shallow embedding of the Python class \<open>MReasoner\<close>: the premise encoder, the
  loop body of the reader thread, the query protocol, the parameter store and the
  fitting objective with its multi-start driver.

  Conventions.
  \<^item> Python strings are \<open>string\<close>; the lines read from the child process are ASCII.
  \<^item> A Python float is an IEEE 754 binary64 number (\<open>double\<close>), and the arithmetic
    of the fitting objective rounds as Python's does. A float that is only stored,
    formatted or passed on (a parameter value, a score that the optimizer reports) is
    the rational number it denotes.
  \<^item> A method that mutates \<open>self\<close> takes the object and returns the outcome paired
    with the object as it is when the method returns or raises: an exception does not
    undo the mutations made before it.
  \<^item> Every exception is a value of \<open>error\<close>; the two \<open>assert False\<close> statements of
    \<open>query\<close> carry their source line so that they can be told apart.
\<close>

subsection \<open>Errors\<close>

datatype error =
    IndexError
  | KeyError
  | ValueError
  | ZeroDivisionError
  | OverflowError
  | UnicodeDecodeError
  | AssertionError nat
  | Blocked

subsection \<open>Python string operations\<close>

text \<open>\<open>s.startswith(p)\<close>.\<close>

definition startswith :: "string \<Rightarrow> string \<Rightarrow> bool" where
  "startswith s p = (take (length p) s = p)"

text \<open>\<open>p in s\<close> on strings: \<open>p\<close> occurs in \<open>s\<close> as a contiguous run.\<close>

fun contains :: "string \<Rightarrow> string \<Rightarrow> bool" where
  "contains p [] = (p = [])"
| "contains p (c # cs) = (startswith (c # cs) p \<or> contains p cs)"

text \<open>
  \<open>str.isspace\<close> on one ASCII character: tab, line feed, vertical tab, form feed,
  carriage return, the four separators 0x1C to 0x1F, and the space.
\<close>

definition py_isspace :: "char \<Rightarrow> bool" where
  "py_isspace c = (let n = (of_char c :: nat) in (9 \<le> n \<and> n \<le> 13) \<or> (28 \<le> n \<and> n \<le> 32))"

text \<open>\<open>s.strip()\<close>.\<close>

definition py_strip :: "string \<Rightarrow> string" where
  "py_strip s = rev (dropWhile py_isspace (rev (dropWhile py_isspace s)))"

text \<open>\<open>s.split()\<close>: the maximal runs of non-space characters, in order.\<close>

fun split_ws :: "string \<Rightarrow> string \<Rightarrow> string list" where
  "split_ws w [] = (if w = [] then [] else [w])"
| "split_ws w (c # cs) =
     (if py_isspace c then (if w = [] then split_ws [] cs else w # split_ws [] cs)
      else split_ws (w @ [c]) cs)"

definition py_split :: "string \<Rightarrow> string list" where
  "py_split s = split_ws [] s"

text \<open>\<open>s.replace(c, '')\<close> for a one-character \<open>c\<close>.\<close>

definition remove_char :: "char \<Rightarrow> string \<Rightarrow> string" where
  "remove_char c s = filter (\<lambda>d. d \<noteq> c) s"

text \<open>\<open>s[i]\<close>: a negative index counts from the end; out of range raises.\<close>

definition py_index :: "string \<Rightarrow> int \<Rightarrow> error + char" where
  "py_index s i =
     (let n = int (length s); j = (if i < 0 then n + i else i)
      in if 0 \<le> j \<and> j < n then Inr (s ! nat j) else Inl IndexError)"

text \<open>
  \<open>template.format(*args)\<close> for templates whose only replacement fields are the
  automatically numbered \<open>{}\<close> (the templates of this program have no other brace):
  each \<open>{}\<close> takes the next argument; a field without an argument raises IndexError;
  surplus arguments are ignored.
\<close>

fun str_format :: "string \<Rightarrow> string list \<Rightarrow> error + string" where
  "str_format [] args = Inr []"
| "str_format (c # t) args =
     (if c = CHR ''{'' \<and> take 1 t = ''}'' then
        (case args of
           [] \<Rightarrow> Inl IndexError
         | a # as \<Rightarrow> (case str_format (drop 1 t) as of Inl e \<Rightarrow> Inl e | Inr r \<Rightarrow> Inr (a @ r)))
      else (case str_format t args of Inl e \<Rightarrow> Inl e | Inr r \<Rightarrow> Inr (c # r)))"

text \<open>A dictionary lookup \<open>d[k]\<close> on a dictionary held as an association list.\<close>

definition dict_get :: "('k \<times> 'v) list \<Rightarrow> 'k \<Rightarrow> error + 'v" where
  "dict_get d k = (case map_of d k of None \<Rightarrow> Inl KeyError | Some v \<Rightarrow> Inr v)"

subsection \<open>The premise encoder\<close>

definition template_quant :: "(char \<times> string) list" where
  "template_quant =
     [(CHR ''A'', ''All {} are {}''),
      (CHR ''I'', ''Some {} are {}''),
      (CHR ''E'', ''No {} are {}''),
      (CHR ''O'', ''Some {} are not {}'')]"

definition template_fig :: "(char \<times> (string list \<times> string list)) list" where
  "template_fig =
     [(CHR ''1'', ([''A'', ''B''], [''B'', ''C''])),
      (CHR ''2'', ([''B'', ''A''], [''C'', ''B''])),
      (CHR ''3'', ([''A'', ''B''], [''C'', ''B''])),
      (CHR ''4'', ([''B'', ''A''], [''B'', ''C'']))]"

text \<open>
  \<open>construct_premises(syllog)\<close>. The subexpressions are evaluated in Python's order:
  for each premise first \<open>template_quant[syllog[k]]\<close>, then
  \<open>template_fig[syllog[-1]]\<close>, then the formatting.
\<close>

definition premise :: "string \<Rightarrow> int \<Rightarrow> bool \<Rightarrow> error + string" where
  "premise syllog k second =
     (case py_index syllog k of Inl e \<Rightarrow> Inl e | Inr q \<Rightarrow>
      case dict_get template_quant q of Inl e \<Rightarrow> Inl e | Inr tq \<Rightarrow>
      case py_index syllog (- 1) of Inl e \<Rightarrow> Inl e | Inr f \<Rightarrow>
      case dict_get template_fig f of Inl e \<Rightarrow> Inl e | Inr tf \<Rightarrow>
      str_format tq (if second then snd tf else fst tf))"

definition construct_premises :: "string \<Rightarrow> error + (string \<times> string)" where
  "construct_premises syllog =
     (case premise syllog 0 False of Inl e \<Rightarrow> Inl e | Inr prem1 \<Rightarrow>
      case premise syllog 1 True of Inl e \<Rightarrow> Inl e | Inr prem2 \<Rightarrow>
      Inr (prem1, prem2))"

text \<open>
  The premise pair as the specification words it: the quantifier's sentence with the
  two terms that the figure assigns to the premise put in the places of subject and
  predicate.
\<close>

definition spec_sentence :: "char \<Rightarrow> string \<Rightarrow> string \<Rightarrow> string" where
  "spec_sentence q a b =
     (if q = CHR ''A'' then ''All '' @ a @ '' are '' @ b
      else if q = CHR ''I'' then ''Some '' @ a @ '' are '' @ b
      else if q = CHR ''E'' then ''No '' @ a @ '' are '' @ b
      else ''Some '' @ a @ '' are not '' @ b)"

definition spec_figure :: "char \<Rightarrow> (string \<times> string) \<times> (string \<times> string)" where
  "spec_figure f =
     (if f = CHR ''1'' then ((''A'', ''B''), (''B'', ''C''))
      else if f = CHR ''2'' then ((''B'', ''A''), (''C'', ''B''))
      else if f = CHR ''3'' then ((''A'', ''B''), (''C'', ''B''))
      else ((''B'', ''A''), (''B'', ''C'')))"

definition spec_premises :: "char \<Rightarrow> char \<Rightarrow> char \<Rightarrow> string \<times> string" where
  "spec_premises q1 q2 f =
     (case spec_figure f of ((a1, b1), (a2, b2)) \<Rightarrow>
        (spec_sentence q1 a1 b1, spec_sentence q2 a2 b2))"

subsection \<open>Number formatting\<close>

text \<open>The decimal digits of a natural number.\<close>

definition digit_char :: "nat \<Rightarrow> char" where
  "digit_char d = ''0123456789'' ! d"

fun show_nat :: "nat \<Rightarrow> string" where
  "show_nat n = (if n < 10 then [digit_char n] else show_nat (n div 10) @ [digit_char (n mod 10)])"

definition round_half_even :: "rat \<Rightarrow> int" where
  "round_half_even x =
     (let f = \<lfloor>x\<rfloor>; r = x - of_int f
      in if r < 1 / 2 then f else if 1 / 2 < r then f + 1 else if even f then f else f + 1)"

text \<open>
  \<open>'{:f}'.format(value)\<close>: fixed point with six decimals, correctly rounded, the sign
  kept when the rounded magnitude is zero.
\<close>

definition format_f :: "rat \<Rightarrow> string" where
  "format_f v =
     (let n = nat (round_half_even (\<bar>v\<bar> * 1000000));
          frac = show_nat (n mod 1000000)
      in (if v < 0 then ''-'' else []) @ show_nat (n div 1000000) @ ''.''
         @ replicate (6 - length frac) (CHR ''0'') @ frac)"

subsection \<open>Floating point\<close>

text \<open>
  A Python float is an IEEE 754 binary64 number. A finite one is the rational number
  it denotes (the two zeros are one value, as they compare equal); the others are
  the two infinities and NaN.
\<close>

datatype double = Finite rat | PosInf | NegInf | NaN

text \<open>The number of binary digits of a positive integer.\<close>

fun bit_length :: "int \<Rightarrow> nat" where
  "bit_length n = (if n \<le> 0 then 0 else Suc (bit_length (n div 2)))"

declare bit_length.simps [simp del]

text \<open>For a positive \<open>q\<close>, the exponent \<open>e\<close> with \<open>2 ^ e \<le> q < 2 ^ (e + 1)\<close>.\<close>

definition floor_log2 :: "rat \<Rightarrow> int" where
  "floor_log2 q =
     (if 1 \<le> q then int (bit_length \<lfloor>q\<rfloor>) - 1 else - int (bit_length (\<lceil>1 / q\<rceil> - 1)))"

definition pow2 :: "int \<Rightarrow> rat" where
  "pow2 e = (if 0 \<le> e then 2 ^ nat e else 1 / 2 ^ nat (- e))"

text \<open>
  Rounding to the nearest binary64 number, ties to the even significand. The
  significand has 53 binary digits, so the numbers with exponent \<open>e\<close> are the multiples
  of \<open>2 ^ (e - 52)\<close>; below the least normal exponent -1022 the spacing stays that of
  -1022 (the subnormal numbers); a result of magnitude \<open>2 ^ 1024\<close> is an infinity.
\<close>

definition binary64 :: "rat \<Rightarrow> double" where
  "binary64 q =
     (if q = 0 then Finite 0
      else
        (let e = max (floor_log2 \<bar>q\<bar>) (- 1022);
             ulp = pow2 (e - 52);
             r = of_int (round_half_even (q / ulp)) * ulp
         in if 2 ^ 1024 \<le> \<bar>r\<bar> then (if 0 < q then PosInf else NegInf) else Finite r))"

text \<open>\<open>a + b\<close> on floats.\<close>

definition float_add :: "double \<Rightarrow> double \<Rightarrow> double" where
  "float_add a b =
     (case a of
        Finite x \<Rightarrow> (case b of Finite y \<Rightarrow> binary64 (x + y) | _ \<Rightarrow> b)
      | PosInf \<Rightarrow> (case b of NegInf \<Rightarrow> NaN | NaN \<Rightarrow> NaN | _ \<Rightarrow> PosInf)
      | NegInf \<Rightarrow> (case b of PosInf \<Rightarrow> NaN | NaN \<Rightarrow> NaN | _ \<Rightarrow> NegInf)
      | NaN \<Rightarrow> NaN)"

text \<open>\<open>a - b\<close> on floats.\<close>

definition float_neg :: "double \<Rightarrow> double" where
  "float_neg a = (case a of Finite x \<Rightarrow> Finite (- x) | PosInf \<Rightarrow> NegInf | NegInf \<Rightarrow> PosInf | NaN \<Rightarrow> NaN)"

definition float_sub :: "double \<Rightarrow> double \<Rightarrow> double" where
  "float_sub a b = float_add a (float_neg b)"

text \<open>
  \<open>a / b\<close> on floats: Python raises ZeroDivisionError for a zero divisor, whatever
  the dividend.
\<close>

definition float_div :: "double \<Rightarrow> double \<Rightarrow> error + double" where
  "float_div a b =
     (case b of
        Finite y \<Rightarrow>
          (if y = 0 then Inl ZeroDivisionError
           else
             (case a of
                Finite x \<Rightarrow> Inr (binary64 (x / y))
              | PosInf \<Rightarrow> Inr (if 0 < y then PosInf else NegInf)
              | NegInf \<Rightarrow> Inr (if 0 < y then NegInf else PosInf)
              | NaN \<Rightarrow> Inr NaN))
      | NaN \<Rightarrow> Inr NaN
      | _ \<Rightarrow> (case a of Finite x \<Rightarrow> Inr (Finite 0) | _ \<Rightarrow> Inr NaN))"

text \<open>
  The conversion of an integer to a float, as the mixed operation \<open>float / int\<close> does
  it: an integer too large for a float raises OverflowError.
\<close>

definition float_of_int :: "int \<Rightarrow> error + double" where
  "float_of_int n = (case binary64 (of_int n) of Finite r \<Rightarrow> Inr (Finite r) | _ \<Rightarrow> Inl OverflowError)"

text \<open>\<open>a / b\<close> on integers: the correctly rounded quotient.\<close>

definition int_true_div :: "int \<Rightarrow> int \<Rightarrow> error + double" where
  "int_true_div a b =
     (if b = 0 then Inl ZeroDivisionError
      else (case binary64 (of_int a / of_int b) of Finite r \<Rightarrow> Inr (Finite r) | _ \<Rightarrow> Inl OverflowError))"

subsection \<open>The wrapper object\<close>

text \<open>
  The fields of \<open>MReasoner\<close> that the methods read and write. The two dictionaries
  are association lists in insertion order. \<open>executed_commands\<close> is the sequence of
  commands written to the child's standard input. \<open>resp_queue\<close> is the blocking
  queue between the reader thread and the caller: seen from the caller it holds, in
  order, the entries the reader delivers; a \<open>get\<close> that finds it empty, with nothing
  more to come, never returns (\<open>Blocked\<close>).
\<close>

record mreasoner =
  params :: "(string \<times> rat) list"
  default_params :: "(string \<times> rat) list"
  received_messages :: "string list"
  executed_commands :: "string list"
  resp_queue :: "string list"

definition param_names :: "string list" where
  "param_names = [''epsilon'', ''lambda'', ''omega'', ''sigma'']"

definition param_bounds :: "(rat \<times> rat) list" where
  "param_bounds = [(0, 1), (1 / 10, 8), (0, 1), (0, 1)]"

text \<open>\<open>_send(cmd)\<close>: the result of \<open>cmd.strip()\<close> is discarded by the source.\<close>

definition send :: "mreasoner \<Rightarrow> string \<Rightarrow> mreasoner" where
  "send s cmd = s\<lparr>executed_commands := executed_commands s @ [cmd]\<rparr>"

text \<open>\<open>resp_queue.put(e)\<close> and \<open>resp_queue.get()\<close>.\<close>

definition queue_put :: "string \<Rightarrow> mreasoner \<Rightarrow> mreasoner" where
  "queue_put e s = s\<lparr>resp_queue := resp_queue s @ [e]\<rparr>"

definition queue_get :: "mreasoner \<Rightarrow> (error + string) \<times> mreasoner" where
  "queue_get s =
     (case resp_queue s of
        [] \<Rightarrow> (Inl Blocked, s)
      | e # q \<Rightarrow> (Inr e, s\<lparr>resp_queue := q\<rparr>))"

subsection \<open>The reader thread\<close>

text \<open>
  Python's \<open>float(s)\<close> on an ASCII string, as a recogniser: optional surrounding
  white space, an optional sign, then \<open>inf\<close>, \<open>infinity\<close> or \<open>nan\<close> in any case, or a
  decimal number with an optional exponent, where single underscores may separate
  digits. The reader takes its float test as a parameter; this is the instance used
  in the evaluated examples.
\<close>

definition is_digit :: "char \<Rightarrow> bool" where
  "is_digit c = (let n = (of_char c :: nat) in 48 \<le> n \<and> n \<le> 57)"

fun digits_rest :: "string \<Rightarrow> string" where
  "digits_rest [] = []"
| "digits_rest [c] = (if is_digit c then [] else [c])"
| "digits_rest (c # d # cs) =
     (if is_digit c then digits_rest (d # cs)
      else if c = CHR ''_'' \<and> is_digit d then digits_rest cs
      else c # d # cs)"

definition digitpart :: "string \<Rightarrow> string option" where
  "digitpart s = (case s of [] \<Rightarrow> None | c # cs \<Rightarrow> if is_digit c then Some (digits_rest cs) else None)"

definition number :: "string \<Rightarrow> string option" where
  "number s =
     (case digitpart s of
        Some r \<Rightarrow>
          (if take 1 r = ''.'' then
             (case digitpart (drop 1 r) of Some r' \<Rightarrow> Some r' | None \<Rightarrow> Some (drop 1 r))
           else Some r)
      | None \<Rightarrow> (if take 1 s = ''.'' then digitpart (drop 1 s) else None))"

definition exponent :: "string \<Rightarrow> string option" where
  "exponent r =
     (if take 1 r = ''e'' \<or> take 1 r = ''E'' then
        (let r' = drop 1 r
         in digitpart (if take 1 r' = ''+'' \<or> take 1 r' = ''-'' then drop 1 r' else r'))
      else None)"

definition floatnumber :: "string \<Rightarrow> bool" where
  "floatnumber s = (case number s of None \<Rightarrow> False | Some r \<Rightarrow> r = [] \<or> exponent r = Some [])"

text \<open>\<open>s.lower() == word\<close> for a lower-case \<open>word\<close>, on character codes.\<close>

definition lower_code :: "char \<Rightarrow> nat" where
  "lower_code c = (let n = (of_char c :: nat) in if 65 \<le> n \<and> n \<le> 90 then n + 32 else n)"

definition lower_is :: "string \<Rightarrow> string \<Rightarrow> bool" where
  "lower_is s word = (map lower_code s = map of_char word)"

definition float_space :: "char \<Rightarrow> bool" where
  "float_space c = (let n = (of_char c :: nat) in (9 \<le> n \<and> n \<le> 13) \<or> n = 32)"

definition py_float :: "string \<Rightarrow> bool" where
  "py_float s =
     (let t = rev (dropWhile float_space (rev (dropWhile float_space s)));
          u = (if take 1 t = ''+'' \<or> take 1 t = ''-'' then drop 1 t else t)
      in floatnumber u \<or> lower_is u ''inf'' \<or> lower_is u ''infinity'' \<or> lower_is u ''nan'')"

text \<open>What one pass through the body of \<open>while True\<close> does to the loop.\<close>

datatype control = Continue | Break | Raise error

definition is_ascii :: "string \<Rightarrow> bool" where
  "is_ascii s = list_all (\<lambda>c. (of_char c :: nat) < 128) s"

text \<open>The test \<open>('While executing:' in text) or ('Error:' in text)\<close>.\<close>

definition error_line :: "string \<Rightarrow> bool" where
  "error_line text = (contains ''While executing:'' text \<or> contains ''Error:'' text)"

text \<open>
  The loop body of \<open>stdout_reader\<close> on one line read from the child (its newline
  goes with the other white space). \<open>is_float q\<close> says whether \<open>float(q)\<close> returns rather than raising
  ValueError. Indexing the empty payload raises IndexError, which ends the thread.
\<close>

definition reader_body :: "(string \<Rightarrow> bool) \<Rightarrow> string \<Rightarrow> mreasoner \<Rightarrow> control \<times> mreasoner" where
  "reader_body is_float line s =
     (if \<not> is_ascii line then (Raise UnicodeDecodeError, s)
      else
        let text = py_strip line;
            s1 = s\<lparr>received_messages := received_messages s @ [text]\<rparr>
        in if startswith text '';'' then (Continue, s1)
           else if contains ''TERMINATE'' text then (Break, s1)
           else
             let s2 = (if error_line text then queue_put ''HALT'' s1 else s1)
             in if startswith text ''?'' then
                  let query_result = drop 2 text
                  in if is_float query_result then (Continue, s2)
                     else if query_result = [] then (Raise IndexError, s2)
                     else if hd query_result = CHR ''('' \<and> last query_result = CHR '')''
                       then (Continue, queue_put query_result s2)
                     else if hd query_result = CHR 0x22 \<and> last query_result = CHR 0x22
                       then (Continue, queue_put (remove_char (CHR 0x22) query_result) s2)
                     else if query_result = ''NIL'' then (Continue, queue_put query_result s2)
                     else (Continue, s2)
                else (Continue, s2))"

text \<open>
  The loop over the lines the child prints. When the given lines are used up the
  thread is still in the loop, waiting in \<open>readline\<close>: the result is \<open>Continue\<close>.
\<close>

fun stdout_reader :: "(string \<Rightarrow> bool) \<Rightarrow> string list \<Rightarrow> mreasoner \<Rightarrow> control \<times> mreasoner" where
  "stdout_reader is_float [] s = (Continue, s)"
| "stdout_reader is_float (line # rest) s =
     (case reader_body is_float line s of
        (Continue, s') \<Rightarrow> stdout_reader is_float rest s'
      | (c, s') \<Rightarrow> (c, s'))"

subsection \<open>The parameter store\<close>

definition set_param :: "mreasoner \<Rightarrow> string \<Rightarrow> rat \<Rightarrow> (error + unit) \<times> mreasoner" where
  "set_param s param v =
     (if param \<notin> set (map fst (params s)) then (Inl ValueError, s)
      else (Inr (),
            send (s\<lparr>params := AList.update param v (params s)\<rparr>)
                 (''(setf +'' @ param @ ''+ '' @ format_f v @ '')'')))"

text \<open>A \<open>for name, value in pairs: self.set_param(name, value)\<close> loop.\<close>

fun set_params :: "mreasoner \<Rightarrow> (string \<times> rat) list \<Rightarrow> (error + unit) \<times> mreasoner" where
  "set_params s [] = (Inr (), s)"
| "set_params s ((name, v) # rest) =
     (case set_param s name v of
        (Inl e, s') \<Rightarrow> (Inl e, s')
      | (Inr u, s') \<Rightarrow> set_params s' rest)"

definition set_param_vec :: "mreasoner \<Rightarrow> rat list \<Rightarrow> (error + unit) \<times> mreasoner" where
  "set_param_vec s ps = set_params s (zip param_names ps)"

subsection \<open>The query protocol\<close>

definition generation_cmd :: "string \<Rightarrow> string \<Rightarrow> string" where
  "generation_cmd prem1 prem2 =
     ''(setf resp '' @ ''(what-follows? (list (parse '('' @ prem1 @ '')) (parse '('' @ prem2
       @ ''))))'' @ '')''"

definition interpretation_cmd :: string where
  "interpretation_cmd = ''(map 'list (lambda (x) (abbreviate x)) resp)''"

text \<open>The last two statements of \<open>query\<close>: strip the punctuation and split.\<close>

definition conclusion_candidates :: "string \<Rightarrow> string list" where
  "conclusion_candidates conclusion =
     py_split (remove_char (CHR '')'') (remove_char (CHR ''('') (remove_char (CHR 0x22) conclusion)))"

definition query :: "mreasoner \<Rightarrow> string \<Rightarrow> (error + string list) \<times> mreasoner" where
  "query s syllog =
     (case construct_premises syllog of
        Inl e \<Rightarrow> (Inl e, s)
      | Inr (prem1, prem2) \<Rightarrow>
          (case queue_get (send s (generation_cmd prem1 prem2)) of
             (Inl e, s1) \<Rightarrow> (Inl e, s1)
           | (Inr query_result, s1) \<Rightarrow>
               if contains ''Q-INTENSION'' query_result then
                 (case queue_get (send s1 interpretation_cmd) of
                    (Inl e, s2) \<Rightarrow> (Inl e, s2)
                  | (Inr conclusion, s2) \<Rightarrow> (Inr (conclusion_candidates conclusion), s2))
               else if contains ''NULL-INTENSION'' query_result \<or> query_result = ''NIL'' then
                 (if contains ''Q-INTENSION'' query_result then (Inl (AssertionError 278), s1)
                  else (Inr (conclusion_candidates ''NVC''), s1))
               else (Inl (AssertionError 282), s1)))"

subsection \<open>The fitting objective\<close>

text \<open>
  The summand \<open>1/len(pred) if resp in pred else 0\<close> of the loop of \<open>_fit_fun\<close>: a
  division of integers, or the integer 0.
\<close>

definition summand :: "string list \<Rightarrow> string \<Rightarrow> error + double" where
  "summand pred resp =
     (if resp \<in> set pred then int_true_div 1 (int (length pred)) else Inr (Finite 0))"

text \<open>
  The \<open>for task, resp in zip(train_x, train_y)\<close> loop of \<open>_fit_fun\<close>. The score
  starts as the integer 0, which the additions treat as the float 0.0.
\<close>

fun fit_loop :: "mreasoner \<Rightarrow> (string \<times> string) list \<Rightarrow> double \<Rightarrow> (error + double) \<times> mreasoner" where
  "fit_loop s [] score = (Inr score, s)"
| "fit_loop s ((task, resp) # rest) score =
     (case query s task of
        (Inl e, s') \<Rightarrow> (Inl e, s')
      | (Inr pred, s') \<Rightarrow>
          (case summand pred resp of
             Inl e \<Rightarrow> (Inl e, s')
           | Inr x \<Rightarrow> fit_loop s' rest (float_add score x)))"

text \<open>
  \<open>_fit_fun(params, train_x, train_y, include_param)\<close>: the inaccuracy is
  \<open>1 - (score / len(train_x))\<close>, where the length is converted to a float before the
  division (a score that is still the integer 0 is divided as an integer, with the
  same quotient 0.0 for every length that a float can hold). The second component of
  the result is the parameter vector when \<open>include_param\<close> is set.
\<close>

definition fit_fun ::
  "mreasoner \<Rightarrow> rat list \<Rightarrow> string list \<Rightarrow> string list \<Rightarrow> bool
     \<Rightarrow> (error + double \<times> rat list option) \<times> mreasoner" where
  "fit_fun s ps train_x train_y include_param =
     (case set_param_vec s ps of
        (Inl e, s1) \<Rightarrow> (Inl e, s1)
      | (Inr u, s1) \<Rightarrow>
          (case fit_loop s1 (zip train_x train_y) (Finite 0) of
             (Inl e, s2) \<Rightarrow> (Inl e, s2)
           | (Inr score, s2) \<Rightarrow>
               (case float_of_int (int (length train_x)) of
                  Inl e \<Rightarrow> (Inl e, s2)
                | Inr n \<Rightarrow>
                    (case float_div score n of
                       Inl e \<Rightarrow> (Inl e, s2)
                     | Inr mean \<Rightarrow>
                         (Inr (float_sub (Finite 1) mean,
                               if include_param then Some ps else None), s2)))))"

subsection \<open>Multi-start fitting\<close>

text \<open>
  \<open>scipy.optimize.minimize\<close> is outside the repository. It is modelled by what it
  does to this program: a run evaluates the objective at a point, sees the value, and
  either evaluates again or returns its result; an exception raised by the objective
  passes through it. The random starting point of a run is part of its strategy.
\<close>

datatype optimize_result = OptimizeResult (res_success: bool) (res_fun: rat) (res_x: "rat list")

datatype minimizer = Finish optimize_result | Evaluate "rat list" "double \<Rightarrow> minimizer"

primrec minimize ::
  "minimizer \<Rightarrow> string list \<Rightarrow> string list \<Rightarrow> mreasoner \<Rightarrow> (error + optimize_result) \<times> mreasoner" where
  "minimize (Finish r) train_x train_y = (\<lambda>s. (Inr r, s))"
| "minimize (Evaluate p k) train_x train_y =
     (\<lambda>s. case fit_fun s p train_x train_y False of
             (Inl e, s') \<Rightarrow> (Inl e, s')
           | (Inr (v, ps), s') \<Rightarrow> minimize (k v) train_x train_y s')"

text \<open>The \<open>for idx in range(num_fits)\<close> loop of \<open>fit\<close>, collecting the successful runs.\<close>

fun fit_runs ::
  "mreasoner \<Rightarrow> (nat \<Rightarrow> minimizer) \<Rightarrow> string list \<Rightarrow> string list \<Rightarrow> nat list
     \<Rightarrow> (rat \<times> rat list) list \<Rightarrow> (error + (rat \<times> rat list) list) \<times> mreasoner" where
  "fit_runs s opt train_x train_y [] results = (Inr results, s)"
| "fit_runs s opt train_x train_y (idx # idxs) results =
     (case minimize (opt idx) train_x train_y s of
        (Inl e, s') \<Rightarrow> (Inl e, s')
      | (Inr res, s') \<Rightarrow>
          fit_runs s' opt train_x train_y idxs
            (if res_success res then results @ [(res_fun res, res_x res)] else results))"

text \<open>\<open>[d[x] for x in names]\<close>.\<close>

fun lookup_all :: "('k \<times> 'v) list \<Rightarrow> 'k list \<Rightarrow> error + 'v list" where
  "lookup_all d [] = Inr []"
| "lookup_all d (k # ks) =
     (case dict_get d k of
        Inl e \<Rightarrow> Inl e
      | Inr v \<Rightarrow> (case lookup_all d ks of Inl e \<Rightarrow> Inl e | Inr vs \<Rightarrow> Inr (v # vs)))"

text \<open>
  \<open>fit(train_x, train_y, num_fits)\<close>, where \<open>opt idx\<close> is the behaviour of the
  optimizer in run \<open>idx\<close>. \<open>sorted\<close> is stable, as \<open>sort_key\<close> is.
\<close>

definition fit ::
  "mreasoner \<Rightarrow> (nat \<Rightarrow> minimizer) \<Rightarrow> string list \<Rightarrow> string list \<Rightarrow> int
     \<Rightarrow> (error + rat \<times> rat list) \<times> mreasoner" where
  "fit s opt train_x train_y num_fits =
     (case fit_runs s opt train_x train_y [0..<nat num_fits] [] of
        (Inl e, s1) \<Rightarrow> (Inl e, s1)
      | (Inr results, s1) \<Rightarrow>
          if int (length results) \<noteq> num_fits \<and> results = [] then
            (case set_params s1 (default_params s1) of
               (Inl e, s2) \<Rightarrow> (Inl e, s2)
             | (Inr u, s2) \<Rightarrow>
                 (case lookup_all (default_params s2) param_names of
                    Inl e \<Rightarrow> (Inl e, s2)
                  | Inr vec \<Rightarrow> (Inr (- 1, vec), s2)))
          else
            (case sort_key fst results of
               [] \<Rightarrow> (Inl IndexError, s1)
             | (optim_score, optim_params) # others \<Rightarrow>
                 (case set_param_vec s1 optim_params of
                    (Inl e, s2) \<Rightarrow> (Inl e, s2)
                  | (Inr u, s2) \<Rightarrow> (Inr (optim_score, optim_params), s2))))"

subsection \<open>The constructor\<close>

definition FASL_ENDINGS :: "(string \<times> string) list" where
  "FASL_ENDINGS = [(''Darwin'', ''dx64fsl''), (''Windows'', ''wx64fsl''), (''Linux'', ''lx64fsl'')]"

definition factory_defaults :: "(string \<times> rat) list" where
  "factory_defaults = [(''epsilon'', 0), (''lambda'', 4), (''omega'', 1), (''sigma'', 0)]"

definition slashes :: "string \<Rightarrow> string" where
  "slashes path = map (\<lambda>c. if c = CHR 0x5C then CHR ''/'' else c) path"

text \<open>
  \<open>__init__(ccl_path, mreasoner_dir)\<close> after the child process has been started.
  The environment is given by \<open>sep\<close> (\<open>os.sep\<close>), \<open>system\<close> (\<open>platform.system()\<close>) and
  \<open>fasl_exists\<close> (whether the compiled file is on disk).
\<close>

definition init :: "string \<Rightarrow> string \<Rightarrow> string \<Rightarrow> bool \<Rightarrow> (error + unit) \<times> mreasoner" where
  "init mreasoner_dir sep system fasl_exists =
     (let s0 = \<lparr>params = [], default_params = [], received_messages = [],
                executed_commands = [], resp_queue = []\<rparr>;
          mreasoner_file = mreasoner_dir @ sep @ ''+mReasoner.lisp''
      in case dict_get FASL_ENDINGS system of
           Inl e \<Rightarrow> (Inl e, s0)
         | Inr ending \<Rightarrow>
             let fasl_path = mreasoner_dir @ sep @ ''+mReasoner.'' @ ending;
                 s1 = (if \<not> fasl_exists
                       then send s0 (''(compile-file '' @ [CHR 0x22] @ slashes mreasoner_file
                                      @ [CHR 0x22] @ '')'')
                       else s0);
                 s2 = send s1 (''(load '' @ [CHR 0x22] @ slashes fasl_path @ [CHR 0x22] @ '')'');
                 s3 = send s2 ''(defvar resp 0)'';
                 s4 = s3\<lparr>default_params := factory_defaults, params := factory_defaults\<rparr>
             in set_params s4 (params s4))"

text \<open>
  The shape the constructor gives the two dictionaries and every method keeps: the
  four parameter names, in order.
\<close>

definition valid :: "mreasoner \<Rightarrow> bool" where
  "valid s = (map fst (params s) = param_names \<and> map fst (default_params s) = param_names)"

text \<open>
  What queries and evaluations of the objective keep of an object: the shape of its
  dictionaries and its default values.
\<close>

definition kept :: "mreasoner \<Rightarrow> mreasoner \<Rightarrow> bool" where
  "kept s s' = (valid s' \<and> default_params s' = default_params s)"

text \<open>
  The object the constructor returns on Linux with the compiled engine on disk, and
  that object with given entries coming through the queue.
\<close>

definition fresh :: mreasoner where
  "fresh = snd (init ''mReasoner/src'' ''/'' ''Linux'' True)"

definition awaiting :: "string list \<Rightarrow> mreasoner" where
  "awaiting entries = fresh\<lparr>resp_queue := entries\<rparr>"

subsection \<open>The objective as the specification words it\<close>

text \<open>
  The candidate lists that the queries for the given tasks return, one after the
  other on the same object.
\<close>

fun query_all :: "mreasoner \<Rightarrow> string list \<Rightarrow> (error + string list list) \<times> mreasoner" where
  "query_all s [] = (Inr [], s)"
| "query_all s (task # tasks) =
     (case query s task of
        (Inl e, s') \<Rightarrow> (Inl e, s')
      | (Inr pred, s') \<Rightarrow>
          (case query_all s' tasks of
             (Inl e, s'') \<Rightarrow> (Inl e, s'')
           | (Inr preds, s'') \<Rightarrow> (Inr (pred # preds), s'')))"

text \<open>
  The score of one training pair is one over the number of candidates if the observed
  response is among them and zero otherwise; the inaccuracy is one minus the mean
  score.
\<close>

definition spec_score :: "string list \<Rightarrow> string \<Rightarrow> rat" where
  "spec_score candidates response =
     (if response \<in> set candidates then 1 / of_nat (length candidates) else 0)"

definition spec_inaccuracy :: "string list list \<Rightarrow> string list \<Rightarrow> rat" where
  "spec_inaccuracy candidates responses =
     1 - (\<Sum>(c, r) \<leftarrow> zip candidates responses. spec_score c r) / of_nat (length responses)"

section \<open>Properties\<close>

subsection \<open>Premise encoder\<close>

lemma format_quant:
  "str_format ''All {} are {}'' [a, b] = Inr (''All '' @ a @ '' are '' @ b)"
  "str_format ''Some {} are {}'' [a, b] = Inr (''Some '' @ a @ '' are '' @ b)"
  "str_format ''No {} are {}'' [a, b] = Inr (''No '' @ a @ '' are '' @ b)"
  "str_format ''Some {} are not {}'' [a, b] = Inr (''Some '' @ a @ '' are not '' @ b)"
  by simp_all

lemma quant_lookup:
  assumes "q \<in> set ''AIEO''"
  shows "\<exists>tq. dict_get template_quant q = Inr tq \<and>
           (\<forall>a b. str_format tq [a, b] = Inr (spec_sentence q a b))"
  using assms by (auto simp: dict_get_def template_quant_def spec_sentence_def)

lemma fig_lookup:
  assumes "f \<in> set ''1234''"
  shows "dict_get template_fig f =
     Inr ([fst (fst (spec_figure f)), snd (fst (spec_figure f))],
          [fst (snd (spec_figure f)), snd (snd (spec_figure f))])"
  using assms by (auto simp: dict_get_def template_fig_def spec_figure_def)

lemma py_index_first: "s \<noteq> [] \<Longrightarrow> py_index s 0 = Inr (s ! 0)"
  by (simp add: py_index_def)

lemma py_index_second: "2 \<le> length s \<Longrightarrow> py_index s 1 = Inr (s ! 1)"
  by (simp add: py_index_def)

lemma py_index_last: "s \<noteq> [] \<Longrightarrow> py_index s (- 1) = Inr (last s)"
  by (cases s rule: rev_cases) (simp_all add: py_index_def)

lemma premise_first:
  "s \<noteq> [] \<Longrightarrow> premise s 0 False =
     (case dict_get template_quant (s ! 0) of Inl e \<Rightarrow> Inl e | Inr tq \<Rightarrow>
      case dict_get template_fig (last s) of Inl e \<Rightarrow> Inl e | Inr tf \<Rightarrow> str_format tq (fst tf))"
  by (simp add: premise_def py_index_first py_index_last split: sum.splits)

lemma premise_second:
  assumes "2 \<le> length s"
  shows "premise s 1 True =
     (case dict_get template_quant (s ! 1) of Inl e \<Rightarrow> Inl e | Inr tq \<Rightarrow>
      case dict_get template_fig (last s) of Inl e \<Rightarrow> Inl e | Inr tf \<Rightarrow> str_format tq (snd tf))"
proof -
  from assms have ne: "s \<noteq> []" by auto
  show ?thesis
    by (simp add: premise_def py_index_second[OF assms] py_index_last[OF ne] split: sum.splits)
qed

text \<open>Only the first, the second and the last character are read.\<close>

lemma construct_premises_reads:
  assumes "2 \<le> length s"
  shows "construct_premises s =
     (case dict_get template_quant (s ! 0) of Inl e \<Rightarrow> Inl e | Inr tq1 \<Rightarrow>
      case dict_get template_fig (last s) of Inl e \<Rightarrow> Inl e | Inr tf \<Rightarrow>
      case str_format tq1 (fst tf) of Inl e \<Rightarrow> Inl e | Inr prem1 \<Rightarrow>
      case dict_get template_quant (s ! 1) of Inl e \<Rightarrow> Inl e | Inr tq2 \<Rightarrow>
      case str_format tq2 (snd tf) of Inl e \<Rightarrow> Inl e | Inr prem2 \<Rightarrow> Inr (prem1, prem2))"
proof -
  from assms have ne: "s \<noteq> []" by auto
  show ?thesis
    by (simp add: construct_premises_def premise_first[OF ne] premise_second[OF assms]
        split: sum.splits)
qed

lemma construct_premises_valid:
  assumes "2 \<le> length s" "s ! 0 \<in> set ''AIEO''" "s ! 1 \<in> set ''AIEO''" "last s \<in> set ''1234''"
  shows "construct_premises s = Inr (spec_premises (s ! 0) (s ! 1) (last s))"
proof -
  obtain t1 where t1: "dict_get template_quant (s ! 0) = Inr t1"
    "\<And>a b. str_format t1 [a, b] = Inr (spec_sentence (s ! 0) a b)"
    using quant_lookup[OF assms(2)] by blast
  obtain t2 where t2: "dict_get template_quant (s ! 1) = Inr t2"
    "\<And>a b. str_format t2 [a, b] = Inr (spec_sentence (s ! 1) a b)"
    using quant_lookup[OF assms(3)] by blast
  show ?thesis
    using t1 t2
    by (simp add: construct_premises_reads[OF assms(1)] fig_lookup[OF assms(4)]
        spec_premises_def split: prod.splits cong: sum.case_cong)
qed

text \<open>
  Claim C3. For each of the 64 identifiers made of two quantifier letters from A, I,
  E, O and a figure digit from 1 to 4, \<open>construct_premises\<close> returns the premise pair
  obtained by putting the figure's terms into the quantifiers' sentences; \<open>AA1\<close>
  gives "All A are B", "All B are C" and \<open>OE3\<close> gives "Some A are not B",
  "No C are B".
\<close>

theorem construct_premises_all_identifiers:
  "(\<forall>q1 \<in> set ''AIEO''. \<forall>q2 \<in> set ''AIEO''. \<forall>f \<in> set ''1234''.
      construct_premises [q1, q2, f] = Inr (spec_premises q1 q2 f))
   \<and> construct_premises ''AA1'' = Inr (''All A are B'', ''All B are C'')
   \<and> construct_premises ''OE3'' = Inr (''Some A are not B'', ''No C are B'')"
proof -
  have all: "construct_premises [q1, q2, f] = Inr (spec_premises q1 q2 f)"
    if "q1 \<in> set ''AIEO''" "q2 \<in> set ''AIEO''" "f \<in> set ''1234''" for q1 q2 f
    using construct_premises_valid[of "[q1, q2, f]"] that by simp
  have "construct_premises ''AA1'' = Inr (spec_premises (CHR ''A'') (CHR ''A'') (CHR ''1''))"
    by (rule all) simp_all
  moreover
  have "construct_premises ''OE3'' = Inr (spec_premises (CHR ''O'') (CHR ''E'') (CHR ''3''))"
    by (rule all) simp_all
  ultimately show ?thesis
    using all by (simp add: spec_premises_def spec_figure_def spec_sentence_def)
qed

theorem construct_premises_all_identifiers_witness:
  "CHR ''I'' \<in> set ''AIEO'' \<and> CHR ''E'' \<in> set ''AIEO'' \<and> CHR ''2'' \<in> set ''1234''
   \<and> construct_premises ''IE2'' = Inr (''Some B are A'', ''No C are B'')"
proof -
  have "construct_premises [CHR ''I'', CHR ''E'', CHR ''2'']
          = Inr (spec_premises (CHR ''I'') (CHR ''E'') (CHR ''2''))"
    using construct_premises_all_identifiers by simp
  then show ?thesis
    by (simp add: spec_premises_def spec_figure_def spec_sentence_def)
qed

text \<open>
  Claim C10. \<open>construct_premises\<close> reads only the first, the second and the last
  character of its argument: two strings that agree at positions 0 and 1 and in their
  last character give the same result, whatever their lengths and the characters in
  between; when the three characters are quantifier letters and a figure digit, the
  result is the premise pair of those three characters.
\<close>

theorem construct_premises_first_second_last:
  assumes "2 \<le> length s" and "2 \<le> length t"
    and "s ! 0 = t ! 0" and "s ! 1 = t ! 1" and "last s = last t"
  shows "construct_premises s = construct_premises t
         \<and> (s ! 0 \<in> set ''AIEO'' \<and> s ! 1 \<in> set ''AIEO'' \<and> last s \<in> set ''1234''
              \<longrightarrow> construct_premises t = Inr (spec_premises (s ! 0) (s ! 1) (last s)))"
proof -
  have eq: "construct_premises s = construct_premises t"
    by (simp only: construct_premises_reads[OF assms(1)] construct_premises_reads[OF assms(2)]
        assms(3-5))
  moreover have "construct_premises s = Inr (spec_premises (s ! 0) (s ! 1) (last s))"
    if "s ! 0 \<in> set ''AIEO'' \<and> s ! 1 \<in> set ''AIEO'' \<and> last s \<in> set ''1234''"
    using construct_premises_valid[OF assms(1)] that by blast
  ultimately show ?thesis by simp
qed

theorem construct_premises_first_second_last_witness:
  "construct_premises ''OE3'' = construct_premises ''OE-any text in between-3''
   \<and> construct_premises ''OE-any text in between-3'' = Inr (''Some A are not B'', ''No C are B'')"
proof -
  have "construct_premises ''OE3'' = construct_premises ''OE-any text in between-3''
        \<and> (''OE3'' ! 0 \<in> set ''AIEO'' \<and> ''OE3'' ! 1 \<in> set ''AIEO'' \<and> last ''OE3'' \<in> set ''1234''
              \<longrightarrow> construct_premises ''OE-any text in between-3''
                    = Inr (spec_premises (''OE3'' ! 0) (''OE3'' ! 1) (last ''OE3'')))"
    by (rule construct_premises_first_second_last) simp_all
  then show ?thesis
    by (simp add: spec_premises_def spec_figure_def spec_sentence_def)
qed

subsection \<open>Parameter store\<close>

lemma set_param_unknown:
  "param \<notin> set (map fst (params s)) \<Longrightarrow> set_param s param v = (Inl ValueError, s)"
  by (simp add: set_param_def)

lemma set_param_known:
  "param \<in> set (map fst (params s)) \<Longrightarrow>
   set_param s param v =
     (Inr (), s\<lparr>params := AList.update param v (params s),
               executed_commands := executed_commands s
                  @ [''(setf +'' @ param @ ''+ '' @ format_f v @ '')'']\<rparr>)"
  by (simp add: set_param_def send_def)

lemma update_keys_known:
  "k \<in> set (map fst al) \<Longrightarrow> map fst (AList.update k v al) = map fst al"
  by (simp add: update_keys)

lemma set_params_known:
  "set (map fst pairs) \<subseteq> set (map fst (params s)) \<Longrightarrow>
   \<exists>s'. set_params s pairs = (Inr (), s') \<and> map fst (params s') = map fst (params s)
        \<and> default_params s' = default_params s \<and> resp_queue s' = resp_queue s
        \<and> received_messages s' = received_messages s"
proof (induction pairs arbitrary: s)
  case Nil
  then show ?case by simp
next
  case (Cons p pairs)
  obtain name v where p: "p = (name, v)" by (cases p)
  from Cons.prems p have known: "name \<in> set (map fst (params s))" by simp
  let ?s1 = "s\<lparr>params := AList.update name v (params s),
               executed_commands := executed_commands s
                  @ [''(setf +'' @ name @ ''+ '' @ format_f v @ '')'']\<rparr>"
  have keys: "map fst (params ?s1) = map fst (params s)"
    using known by (simp add: update_keys_known)
  with Cons.prems have "set (map fst pairs) \<subseteq> set (map fst (params ?s1))" by simp
  from Cons.IH[OF this] keys show ?case
    by (simp add: p set_param_known[OF known])
qed

lemma set_param_vec_valid:
  assumes "valid s"
  shows "\<exists>s'. set_param_vec s ps = (Inr (), s') \<and> valid s'
        \<and> default_params s' = default_params s \<and> resp_queue s' = resp_queue s
        \<and> received_messages s' = received_messages s"
proof -
  have "set (map fst (zip param_names ps)) \<subseteq> set (map fst (params s))"
    using assms by (auto simp: valid_def dest: set_zip_leftD)
  from set_params_known[OF this] assms show ?thesis
    by (auto simp: set_param_vec_def valid_def)
qed

lemma valid_shape:
  assumes "valid s"
  shows "\<exists>a b c d a' b' c' d'.
           params s = [(''epsilon'', a), (''lambda'', b), (''omega'', c), (''sigma'', d)]
         \<and> default_params s = [(''epsilon'', a'), (''lambda'', b'), (''omega'', c'), (''sigma'', d')]"
  using assms by (auto simp: valid_def param_names_def map_eq_Cons_conv)

lemma set_params_defaults:
  assumes "valid s"
  shows "\<exists>s'. set_params s (default_params s) = (Inr (), s') \<and> params s' = default_params s
        \<and> default_params s' = default_params s \<and> resp_queue s' = resp_queue s
        \<and> received_messages s' = received_messages s"
proof -
  from valid_shape[OF assms] obtain a b c d a' b' c' d' where
    "params s = [(''epsilon'', a), (''lambda'', b), (''omega'', c), (''sigma'', d)]"
    "default_params s = [(''epsilon'', a'), (''lambda'', b'), (''omega'', c'), (''sigma'', d')]"
    by blast
  then show ?thesis
    by (simp add: set_param_def send_def)
qed

lemma lookup_all_defaults:
  assumes "valid s"
  shows "lookup_all (default_params s) param_names = Inr (map snd (default_params s))"
proof -
  from valid_shape[OF assms] obtain a' b' c' d' where
    "default_params s = [(''epsilon'', a'), (''lambda'', b'), (''omega'', c'), (''sigma'', d')]"
    by blast
  then show ?thesis
    by (simp add: param_names_def dict_get_def)
qed

lemma fresh_fields:
  "params fresh = factory_defaults" "default_params fresh = factory_defaults"
  "resp_queue fresh = []" "received_messages fresh = []"
  by (simp_all add: fresh_def init_def dict_get_def FASL_ENDINGS_def factory_defaults_def
      set_param_def send_def)

text \<open>The constructor, on a platform it knows, returns an object of the valid shape.\<close>

lemma init_valid:
  assumes "system \<in> set (map fst FASL_ENDINGS)"
  shows "fst (init mreasoner_dir sep system fasl_exists) = Inr ()
       \<and> valid (snd (init mreasoner_dir sep system fasl_exists))
       \<and> params (snd (init mreasoner_dir sep system fasl_exists)) = factory_defaults
       \<and> default_params (snd (init mreasoner_dir sep system fasl_exists)) = factory_defaults"
proof -
  from assms obtain ending where e: "dict_get FASL_ENDINGS system = Inr ending"
    by (auto simp: dict_get_def FASL_ENDINGS_def)
  show ?thesis
    by (simp add: init_def e Let_def factory_defaults_def set_param_def send_def valid_def
        param_names_def)
qed

lemma valid_fresh: "valid fresh"
  by (simp add: valid_def fresh_fields factory_defaults_def param_names_def)

text \<open>
  Claim C8. On an object as the constructor builds it, \<open>set_param\<close> with a name that
  is not one of epsilon, lambda, omega, sigma fails with ValueError (the invalid
  parameter error), leaves the object as it was, stored values included, and sends no
  command. With one of the four names every value is accepted, whatever the bounds:
  the value is stored and the assignment command is sent.
\<close>

theorem set_param_unknown_name_rejected:
  assumes "valid s"
  shows "(name \<notin> set param_names \<longrightarrow> set_param s name v = (Inl ValueError, s))
       \<and> (name \<in> set param_names \<longrightarrow>
            set_param s name v =
              (Inr (), s\<lparr>params := AList.update name v (params s),
                        executed_commands := executed_commands s
                           @ [''(setf +'' @ name @ ''+ '' @ format_f v @ '')'']\<rparr>)
            \<and> map_of (params (snd (set_param s name v))) name = Some v)"
proof -
  from assms have keys: "map fst (params s) = param_names" by (simp add: valid_def)
  have "set_param s name v = (Inl ValueError, s)" if "name \<notin> set param_names"
    using that keys by (simp add: set_param_unknown)
  moreover have "set_param s name v =
              (Inr (), s\<lparr>params := AList.update name v (params s),
                        executed_commands := executed_commands s
                           @ [''(setf +'' @ name @ ''+ '' @ format_f v @ '')'']\<rparr>)
            \<and> map_of (params (snd (set_param s name v))) name = Some v"
    if "name \<in> set param_names"
    using that keys by (simp add: set_param_known update_conv')
  ultimately show ?thesis by blast
qed

theorem set_param_unknown_name_rejected_witness:
  "valid fresh \<and> ''alpha'' \<notin> set param_names
   \<and> set_param fresh ''alpha'' 5 = (Inl ValueError, fresh)
   \<and> ''lambda'' \<in> set param_names
   \<and> fst (set_param fresh ''lambda'' 1000) = Inr ()
   \<and> map_of (params (snd (set_param fresh ''lambda'' 1000))) ''lambda'' = Some 1000"
  using set_param_unknown_name_rejected[OF valid_fresh, of "''alpha''" 5]
    set_param_unknown_name_rejected[OF valid_fresh, of "''lambda''" 1000]
  by (simp add: valid_fresh param_names_def update_conv')

subsection \<open>Query protocol\<close>

lemma contains_HALT:
  "\<not> contains ''Q-INTENSION'' ''HALT''" "\<not> contains ''NULL-INTENSION'' ''HALT''"
  by (simp_all add: startswith_def)

lemma HALT_not_NIL: "''HALT'' \<noteq> ''NIL''"
  by simp

lemma contains_NIL: "\<not> contains ''Q-INTENSION'' ''NIL''"
  by (simp add: startswith_def)

lemma conclusion_candidates_NVC: "conclusion_candidates ''NVC'' = [''NVC'']"
  by (simp add: conclusion_candidates_def remove_char_def py_split_def py_isspace_def)

lemma query_premises_error:
  "construct_premises syllog = Inl e \<Longrightarrow> query s syllog = (Inl e, s)"
  by (simp add: query_def)

lemma query_blocked:
  "construct_premises syllog = Inr (prem1, prem2) \<Longrightarrow> resp_queue s = [] \<Longrightarrow>
   query s syllog = (Inl Blocked, send s (generation_cmd prem1 prem2))"
  by (simp add: query_def queue_get_def send_def)

lemma query_invalid:
  assumes "construct_premises syllog = Inr (prem1, prem2)" and "resp_queue s = e # q"
    and "\<not> contains ''Q-INTENSION'' e" and "\<not> contains ''NULL-INTENSION'' e" and "e \<noteq> ''NIL''"
  shows "query s syllog =
     (Inl (AssertionError 282),
      s\<lparr>executed_commands := executed_commands s @ [generation_cmd prem1 prem2],
        resp_queue := q\<rparr>)"
  using assms by (simp add: query_def queue_get_def send_def)

lemma query_null:
  assumes "construct_premises syllog = Inr (prem1, prem2)" and "resp_queue s = e # q"
    and "\<not> contains ''Q-INTENSION'' e" and "contains ''NULL-INTENSION'' e \<or> e = ''NIL''"
  shows "query s syllog =
     (Inr [''NVC''],
      s\<lparr>executed_commands := executed_commands s @ [generation_cmd prem1 prem2],
        resp_queue := q\<rparr>)"
  using assms by (auto simp: query_def queue_get_def send_def conclusion_candidates_NVC)

lemma query_intension:
  assumes "construct_premises syllog = Inr (prem1, prem2)" and "resp_queue s = e # c # q"
    and "contains ''Q-INTENSION'' e"
  shows "query s syllog =
     (Inr (conclusion_candidates c),
      s\<lparr>executed_commands := executed_commands s @ [generation_cmd prem1 prem2, interpretation_cmd],
        resp_queue := q\<rparr>)"
  using assms by (simp add: query_def queue_get_def send_def)

lemma str_format_error: "str_format t args = Inl e \<Longrightarrow> e = IndexError"
  by (induction t args rule: str_format.induct) (auto split: if_splits list.splits sum.splits)

lemma premise_error: "premise s k b = Inl e \<Longrightarrow> e = IndexError \<or> e = KeyError"
  by (auto simp: premise_def py_index_def dict_get_def Let_def dest: str_format_error
      split: sum.splits if_splits option.splits)

lemma construct_premises_error:
  "construct_premises s = Inl e \<Longrightarrow> e = IndexError \<or> e = KeyError"
  by (auto simp: construct_premises_def dest: premise_error split: sum.splits)

lemma query_keeps:
  "params (snd (query s syllog)) = params s \<and> default_params (snd (query s syllog)) = default_params s
   \<and> received_messages (snd (query s syllog)) = received_messages s"
  by (auto simp: query_def queue_get_def send_def split: sum.splits prod.splits list.splits)

lemma premises_AA1: "construct_premises ''AA1'' = Inr (''All A are B'', ''All B are C'')"
  using construct_premises_valid[of "''AA1''"]
  by (simp add: spec_premises_def spec_figure_def spec_sentence_def)

lemma awaiting_fields:
  "resp_queue (awaiting es) = es" "executed_commands (awaiting es) = executed_commands fresh"
  "params (awaiting es) = params fresh" "default_params (awaiting es) = default_params fresh"
  by (simp_all add: awaiting_def)

text \<open>
  Claim C9. The \<open>assert False\<close> that \<open>query\<close> guards with "the phase-one response
  contains Q-INTENSION" inside its null-intension branch is never reached: no object
  and no identifier make \<open>query\<close> fail with that assertion, since the branch is
  entered only with a response that does not contain Q-INTENSION.
\<close>

theorem query_inner_assertion_unreachable:
  "fst (query s syllog) \<noteq> Inl (AssertionError 278)"
  by (auto simp: query_def queue_get_def dest: construct_premises_error
      split: sum.splits prod.splits list.splits)

text \<open>
  Claim C1, as stated: when the generation-phase entry is the reader's HALT signal,
  \<open>query\<close> hands a Halt outcome to its caller, and no unrelated failure. The code has
  no Halt outcome: HALT falls into the last branch of \<open>query\<close>, whose
  \<open>assert False\<close> is the failure raised for every response that is not recognised.
\<close>

theorem query_halt_counterexample:
  "fst (query (awaiting [''HALT'']) ''AA1'') = Inl (AssertionError 282)
   \<and> fst (query (awaiting [''no such result'']) ''AA1'') = Inl (AssertionError 282)"
proof -
  have "fst (query (awaiting [''HALT'']) ''AA1'') = Inl (AssertionError 282)"
    using query_invalid[OF premises_AA1 _ contains_HALT HALT_not_NIL, of "awaiting [''HALT'']" "[]"]
    by (simp add: awaiting_fields)
  moreover have "fst (query (awaiting [''no such result'']) ''AA1'') = Inl (AssertionError 282)"
    using query_invalid[OF premises_AA1, of "awaiting [''no such result'']" "''no such result''" "[]"]
    by (simp add: awaiting_fields startswith_def)
  ultimately show ?thesis by simp
qed

text \<open>
  Claim C1, amended. When the generation-phase entry is HALT, \<open>query\<close> fails at once
  with the assertion failure of its invalid-response branch, having sent the
  generation command only (no interpretation command) and having taken the one entry
  from the queue; every phase-one response that is not recognised gives the same
  failure.
\<close>

theorem query_halt_entry:
  assumes "construct_premises syllog = Inr (prem1, prem2)" and "resp_queue s = ''HALT'' # q"
  shows "query s syllog =
           (Inl (AssertionError 282),
            s\<lparr>executed_commands := executed_commands s @ [generation_cmd prem1 prem2],
              resp_queue := q\<rparr>)
         \<and> (\<forall>e. \<not> contains ''Q-INTENSION'' e \<and> \<not> contains ''NULL-INTENSION'' e \<and> e \<noteq> ''NIL''
               \<longrightarrow> fst (query (s\<lparr>resp_queue := e # q\<rparr>) syllog) = fst (query s syllog))"
proof -
  have halt: "query s syllog =
           (Inl (AssertionError 282),
            s\<lparr>executed_commands := executed_commands s @ [generation_cmd prem1 prem2],
              resp_queue := q\<rparr>)"
    by (rule query_invalid[OF assms(1) assms(2) contains_HALT HALT_not_NIL])
  have "fst (query (s\<lparr>resp_queue := e # q\<rparr>) syllog) = Inl (AssertionError 282)"
    if "\<not> contains ''Q-INTENSION'' e \<and> \<not> contains ''NULL-INTENSION'' e \<and> e \<noteq> ''NIL''" for e
    using query_invalid[OF assms(1), of "s\<lparr>resp_queue := e # q\<rparr>" e q] that by simp
  with halt show ?thesis by simp
qed

theorem query_halt_entry_witness:
  "construct_premises ''AA1'' = Inr (''All A are B'', ''All B are C'')
   \<and> resp_queue (awaiting [''HALT'', ''NIL'']) = ''HALT'' # [''NIL'']
   \<and> fst (query (awaiting [''HALT'', ''NIL'']) ''AA1'') = Inl (AssertionError 282)
   \<and> executed_commands (snd (query (awaiting [''HALT'', ''NIL'']) ''AA1''))
       = executed_commands fresh @ [generation_cmd ''All A are B'' ''All B are C'']
   \<and> resp_queue (snd (query (awaiting [''HALT'', ''NIL'']) ''AA1'')) = [''NIL'']"
  using query_halt_entry[OF premises_AA1, of "awaiting [''HALT'', ''NIL'']" "[''NIL'']"]
  by (simp add: awaiting_fields premises_AA1)

text \<open>
  Claim C5, as stated: whenever the generation-phase entry indicates a null intension
  or is NIL, \<open>query\<close> returns NVC and sends no second command. \<open>query\<close> tests for
  Q-INTENSION first: an entry that names both kinds of intension is treated as a
  quantified intension, the interpretation command is sent and the answer to it is
  returned.
\<close>

theorem query_null_counterexample:
  "contains ''NULL-INTENSION'' ''(#<Q-INTENSION> #<NULL-INTENSION>)''
   \<and> fst (query (awaiting [''(#<Q-INTENSION> #<NULL-INTENSION>)'', ''(\"Aac\" \"Iac\")'']) ''AA1'')
       = Inr [''Aac'', ''Iac'']
   \<and> executed_commands
        (snd (query (awaiting [''(#<Q-INTENSION> #<NULL-INTENSION>)'', ''(\"Aac\" \"Iac\")'']) ''AA1''))
       = executed_commands fresh @ [generation_cmd ''All A are B'' ''All B are C'', interpretation_cmd]"
proof -
  have q: "contains ''Q-INTENSION'' ''(#<Q-INTENSION> #<NULL-INTENSION>)''"
    by (simp add: startswith_def)
  have n: "contains ''NULL-INTENSION'' ''(#<Q-INTENSION> #<NULL-INTENSION>)''"
    by (simp add: startswith_def)
  have c: "conclusion_candidates ''(\"Aac\" \"Iac\")'' = [''Aac'', ''Iac'']"
    by (simp add: conclusion_candidates_def remove_char_def py_split_def py_isspace_def)
  show ?thesis
    using query_intension[OF premises_AA1 _ q,
        of "awaiting [''(#<Q-INTENSION> #<NULL-INTENSION>)'', ''(\"Aac\" \"Iac\")'']"
           "''(\"Aac\" \"Iac\")''" "[]"] n c
    by (simp add: awaiting_fields)
qed

text \<open>
  Claim C5, amended. When the generation-phase entry contains NULL-INTENSION and does
  not contain Q-INTENSION, or is the literal NIL, \<open>query\<close> returns the marker NVC (as
  its one candidate), having sent the generation command only.
\<close>

theorem query_null_intension:
  assumes "construct_premises syllog = Inr (prem1, prem2)" and "resp_queue s = e # q"
    and "contains ''NULL-INTENSION'' e \<and> \<not> contains ''Q-INTENSION'' e \<or> e = ''NIL''"
  shows "query s syllog =
           (Inr [''NVC''],
            s\<lparr>executed_commands := executed_commands s @ [generation_cmd prem1 prem2],
              resp_queue := q\<rparr>)"
proof -
  from assms(3) have "\<not> contains ''Q-INTENSION'' e" "contains ''NULL-INTENSION'' e \<or> e = ''NIL''"
    using contains_NIL by auto
  from query_null[OF assms(1) assms(2) this] show ?thesis .
qed

theorem query_null_intension_witness:
  "construct_premises ''AA1'' = Inr (''All A are B'', ''All B are C'')
   \<and> resp_queue (awaiting [''(#<NULL-INTENSION>)'']) = ''(#<NULL-INTENSION>)'' # []
   \<and> contains ''NULL-INTENSION'' ''(#<NULL-INTENSION>)''
   \<and> \<not> contains ''Q-INTENSION'' ''(#<NULL-INTENSION>)''
   \<and> fst (query (awaiting [''(#<NULL-INTENSION>)'']) ''AA1'') = Inr [''NVC'']
   \<and> executed_commands (snd (query (awaiting [''(#<NULL-INTENSION>)'']) ''AA1''))
       = executed_commands fresh @ [generation_cmd ''All A are B'' ''All B are C'']
   \<and> fst (query (awaiting [''NIL'']) ''AA1'') = Inr [''NVC'']
   \<and> executed_commands (snd (query (awaiting [''NIL'']) ''AA1''))
       = executed_commands fresh @ [generation_cmd ''All A are B'' ''All B are C'']"
proof -
  have n: "contains ''NULL-INTENSION'' ''(#<NULL-INTENSION>)''"
    by (simp add: startswith_def)
  have q: "\<not> contains ''Q-INTENSION'' ''(#<NULL-INTENSION>)''"
    by (simp add: startswith_def)
  have "query (awaiting [''(#<NULL-INTENSION>)'']) ''AA1'' =
           (Inr [''NVC''],
            (awaiting [''(#<NULL-INTENSION>)''])\<lparr>executed_commands :=
                executed_commands (awaiting [''(#<NULL-INTENSION>)''])
                  @ [generation_cmd ''All A are B'' ''All B are C''],
              resp_queue := []\<rparr>)"
    using n q
    by (intro query_null_intension[OF premises_AA1,
          of "awaiting [''(#<NULL-INTENSION>)'']" "''(#<NULL-INTENSION>)''" "[]"] disjI1 conjI)
      (simp_all only: awaiting_fields not_False_eq_True)
  moreover have "query (awaiting [''NIL'']) ''AA1'' =
           (Inr [''NVC''],
            (awaiting [''NIL''])\<lparr>executed_commands :=
                executed_commands (awaiting [''NIL''])
                  @ [generation_cmd ''All A are B'' ''All B are C''],
              resp_queue := []\<rparr>)"
    by (rule query_null_intension[OF premises_AA1, of "awaiting [''NIL'']" "''NIL''" "[]"])
      (simp_all add: awaiting_fields)
  ultimately show ?thesis
    by (simp add: awaiting_fields premises_AA1 startswith_def)
qed

subsection \<open>Reader thread\<close>

lemma reader_body_not_ascii:
  "\<not> is_ascii line \<Longrightarrow> reader_body f line s = (Raise UnicodeDecodeError, s)"
  by (simp add: reader_body_def)

lemma reader_body_comment:
  "is_ascii line \<Longrightarrow> startswith (py_strip line) '';'' \<Longrightarrow>
   reader_body f line s =
     (Continue, s\<lparr>received_messages := received_messages s @ [py_strip line]\<rparr>)"
  by (simp add: reader_body_def)

lemma reader_body_terminate:
  "is_ascii line \<Longrightarrow> \<not> startswith (py_strip line) '';'' \<Longrightarrow>
   contains ''TERMINATE'' (py_strip line) \<Longrightarrow>
   reader_body f line s =
     (Break, s\<lparr>received_messages := received_messages s @ [py_strip line]\<rparr>)"
  by (simp add: reader_body_def)

lemma reader_body_other:
  "is_ascii line \<Longrightarrow> \<not> startswith (py_strip line) '';'' \<Longrightarrow>
   \<not> contains ''TERMINATE'' (py_strip line) \<Longrightarrow> \<not> startswith (py_strip line) ''?'' \<Longrightarrow>
   reader_body f line s =
     (Continue, s\<lparr>received_messages := received_messages s @ [py_strip line],
                  resp_queue := resp_queue s @ (if error_line (py_strip line) then [''HALT''] else [])\<rparr>)"
  by (simp add: reader_body_def queue_put_def)

lemma reader_body_result:
  assumes "is_ascii line" "\<not> startswith (py_strip line) '';''"
    "\<not> contains ''TERMINATE'' (py_strip line)" "startswith (py_strip line) ''?''"
  shows "reader_body f line s =
     (let text = py_strip line; query_result = drop 2 text;
          s2 = s\<lparr>received_messages := received_messages s @ [text],
                  resp_queue := resp_queue s @ (if error_line text then [''HALT''] else [])\<rparr>
      in if f query_result then (Continue, s2)
         else if query_result = [] then (Raise IndexError, s2)
         else if hd query_result = CHR ''('' \<and> last query_result = CHR '')''
           then (Continue, s2\<lparr>resp_queue := resp_queue s2 @ [query_result]\<rparr>)
         else if hd query_result = CHR 0x22 \<and> last query_result = CHR 0x22
           then (Continue, s2\<lparr>resp_queue := resp_queue s2 @ [remove_char (CHR 0x22) query_result]\<rparr>)
         else if query_result = ''NIL'' then (Continue, s2\<lparr>resp_queue := resp_queue s2 @ [query_result]\<rparr>)
         else (Continue, s2))"
  using assms by (simp add: reader_body_def queue_put_def Let_def)

lemmas reader_eval =
  reader_body_def is_ascii_def py_strip_def py_isspace_def startswith_def error_line_def
  py_float_def float_space_def floatnumber_def number_def exponent_def digitpart_def
  is_digit_def lower_is_def lower_code_def queue_put_def remove_char_def fresh_fields Let_def

text \<open>
  Claim C2, as stated: one line makes the reader push at most one entry, also a line
  that contains an error substring and is a query result. The test for the error
  substrings does not end the pass through the loop: such a line gets the HALT entry
  and then its payload.
\<close>

theorem reader_body_two_entries_counterexample:
  "resp_queue fresh = []
   \<and> resp_queue (snd (reader_body py_float ''? \"Error: x\"'' fresh)) = [''HALT'', ''Error: x'']"
  by (simp add: reader_eval)

text \<open>
  Claim C2, amended. One line makes the reader push at most two entries, after those
  already in the queue; at most one if the line contains no error substring, and at
  most one if it is not a query-result line.
\<close>

theorem reader_body_at_most_two_entries:
  "\<exists>es. resp_queue (snd (reader_body f line s)) = resp_queue s @ es
        \<and> length es \<le> 2
        \<and> (\<not> error_line (py_strip line) \<longrightarrow> length es \<le> 1)
        \<and> (\<not> startswith (py_strip line) ''?'' \<longrightarrow> length es \<le> 1)"
proof (cases "is_ascii line")
  case False
  then show ?thesis by (simp add: reader_body_not_ascii)
next
  case a: True
  show ?thesis
  proof (cases "startswith (py_strip line) '';''")
    case True
    with a show ?thesis by (simp add: reader_body_comment)
  next
    case c: False
    show ?thesis
    proof (cases "contains ''TERMINATE'' (py_strip line)")
      case True
      with a c show ?thesis by (simp add: reader_body_terminate)
    next
      case t: False
      show ?thesis
      proof (cases "startswith (py_strip line) ''?''")
        case False
        with a c t show ?thesis by (simp add: reader_body_other)
      next
        case True
        with a c t show ?thesis by (simp add: reader_body_result Let_def)
      qed
    qed
  qed
qed


theorem reader_body_at_most_two_entries_witness:
  "\<not> error_line (py_strip ''? (Aac Ice)'')
   \<and> resp_queue (snd (reader_body py_float ''? (Aac Ice)'' fresh)) = [''(Aac Ice)'']
   \<and> \<not> startswith (py_strip ''> Error: boom'') ''?''
   \<and> resp_queue (snd (reader_body py_float ''> Error: boom'' fresh)) = [''HALT'']"
  using reader_body_at_most_two_entries[of py_float "''? (Aac Ice)''" fresh]
    reader_body_at_most_two_entries[of py_float "''> Error: boom''" fresh]
  by (simp add: reader_eval)

text \<open>
  Claim C4, as stated: every line containing \<open>Error:\<close> gets a HALT entry, and every
  line containing \<open>TERMINATE\<close> ends the loop. The comment test comes first: a line
  that starts with a semicolon is dropped whatever it contains.
\<close>

theorem reader_rules_counterexample:
  "contains ''Error:'' ''; Error: in a comment''
   \<and> reader_body py_float ''; Error: in a comment'' fresh
       = (Continue, fresh\<lparr>received_messages := [''; Error: in a comment'']\<rparr>)
   \<and> resp_queue (fresh\<lparr>received_messages := [''; Error: in a comment'']\<rparr>) = []
   \<and> contains ''TERMINATE'' '';TERMINATE''
   \<and> fst (reader_body py_float '';TERMINATE'' fresh) = Continue"
  by (simp add: reader_eval)

text \<open>
  Claim C4, amended. The loop body classifies the stripped text of an ASCII line by
  these rules, in this order. A text starting with a semicolon is dropped. Otherwise a
  text containing \<open>TERMINATE\<close> ends the loop: no later line is processed. Otherwise a
  text containing \<open>Error:\<close> gets a HALT entry, and classification goes on. If the
  text then starts with a question mark, its payload is the text from the third
  character on: a payload that parses as a float adds no entry; otherwise a payload in
  parentheses is enqueued unchanged, a payload in double quotes is enqueued with all
  its double quotes removed, and the payload \<open>NIL\<close> is enqueued. The payload's entry
  comes after the HALT entry if the text also has an error substring.
\<close>

theorem reader_rules_in_order:
  assumes "is_ascii line" and "text = py_strip line"
    and "s1 = s\<lparr>received_messages := received_messages s @ [text]\<rparr>"
    and "s2 = s1\<lparr>resp_queue := resp_queue s @ (if error_line text then [''HALT''] else [])\<rparr>"
  shows
    "(startswith text '';'' \<longrightarrow> reader_body f line s = (Continue, s1))
   \<and> (\<not> startswith text '';'' \<and> contains ''TERMINATE'' text \<longrightarrow>
        (\<forall>rest. stdout_reader f (line # rest) s = (Break, s1)))
   \<and> (\<not> startswith text '';'' \<and> \<not> contains ''TERMINATE'' text \<and> contains ''Error:'' text \<longrightarrow>
        (\<exists>es. resp_queue (snd (reader_body f line s)) = resp_queue s @ ''HALT'' # es))
   \<and> (\<not> startswith text '';'' \<and> \<not> contains ''TERMINATE'' text \<and> startswith text ''?'' \<longrightarrow>
        (f (drop 2 text) \<longrightarrow> reader_body f line s = (Continue, s2))
      \<and> (\<not> f (drop 2 text) \<and> drop 2 text \<noteq> []
           \<and> hd (drop 2 text) = CHR ''('' \<and> last (drop 2 text) = CHR '')'' \<longrightarrow>
           reader_body f line s = (Continue, queue_put (drop 2 text) s2))
      \<and> (\<not> f (drop 2 text) \<and> drop 2 text \<noteq> []
           \<and> hd (drop 2 text) = CHR 0x22 \<and> last (drop 2 text) = CHR 0x22 \<longrightarrow>
           reader_body f line s = (Continue, queue_put (remove_char (CHR 0x22) (drop 2 text)) s2))
      \<and> (\<not> f (drop 2 text) \<and> drop 2 text = ''NIL'' \<longrightarrow>
           reader_body f line s = (Continue, queue_put ''NIL'' s2)))"
proof -
  note a = assms(1) and t = assms(2) and s1 = assms(3) and s2 = assms(4)
  have r1: "reader_body f line s = (Continue, s1)" if "startswith text '';''"
    using that a by (simp add: reader_body_comment t s1)
  have r2: "stdout_reader f (line # rest) s = (Break, s1)"
    if "\<not> startswith text '';'' \<and> contains ''TERMINATE'' text" for rest
    using that a by (simp add: reader_body_terminate t s1)
  have r3: "\<exists>es. resp_queue (snd (reader_body f line s)) = resp_queue s @ ''HALT'' # es"
    if h: "\<not> startswith text '';'' \<and> \<not> contains ''TERMINATE'' text \<and> contains ''Error:'' text"
  proof (cases "startswith text ''?''")
    case False
    with h a show ?thesis by (simp add: reader_body_other t error_line_def)
  next
    case True
    with h a show ?thesis by (simp add: reader_body_result t error_line_def Let_def)
  qed
  have r4: "(f (drop 2 text) \<longrightarrow> reader_body f line s = (Continue, s2))
      \<and> (\<not> f (drop 2 text) \<and> drop 2 text \<noteq> []
           \<and> hd (drop 2 text) = CHR ''('' \<and> last (drop 2 text) = CHR '')'' \<longrightarrow>
           reader_body f line s = (Continue, queue_put (drop 2 text) s2))
      \<and> (\<not> f (drop 2 text) \<and> drop 2 text \<noteq> []
           \<and> hd (drop 2 text) = CHR 0x22 \<and> last (drop 2 text) = CHR 0x22 \<longrightarrow>
           reader_body f line s = (Continue, queue_put (remove_char (CHR 0x22) (drop 2 text)) s2))
      \<and> (\<not> f (drop 2 text) \<and> drop 2 text = ''NIL'' \<longrightarrow>
           reader_body f line s = (Continue, queue_put ''NIL'' s2))"
    if h: "\<not> startswith text '';'' \<and> \<not> contains ''TERMINATE'' text \<and> startswith text ''?''"
  proof -
    from h a have "reader_body f line s =
     (let query_result = drop 2 text
      in if f query_result then (Continue, s2)
         else if query_result = [] then (Raise IndexError, s2)
         else if hd query_result = CHR ''('' \<and> last query_result = CHR '')''
           then (Continue, s2\<lparr>resp_queue := resp_queue s2 @ [query_result]\<rparr>)
         else if hd query_result = CHR 0x22 \<and> last query_result = CHR 0x22
           then (Continue, s2\<lparr>resp_queue := resp_queue s2 @ [remove_char (CHR 0x22) query_result]\<rparr>)
         else if query_result = ''NIL'' then (Continue, s2\<lparr>resp_queue := resp_queue s2 @ [query_result]\<rparr>)
         else (Continue, s2))"
      by (simp add: reader_body_result t s1 s2 Let_def)
    then show ?thesis
      by (auto simp: Let_def queue_put_def)
  qed
  from r1 r2 r3 r4 show ?thesis by blast
qed

lemma example_lines_ascii:
  "is_ascii '';comment''" "is_ascii ''\"TERMINATE\"''" "is_ascii ''> Error: boom''"
  "is_ascii ''? 3.14''" "is_ascii ''? (Aac Ice)''" "is_ascii ''? \"Aac\"''" "is_ascii ''? NIL''"
  by (simp_all add: is_ascii_def)

lemma example_lines_stripped:
  "'';comment'' = py_strip '';comment''" "''\"TERMINATE\"'' = py_strip ''\"TERMINATE\"''"
  "''> Error: boom'' = py_strip ''> Error: boom''" "''? 3.14'' = py_strip ''? 3.14''"
  "''? (Aac Ice)'' = py_strip ''? (Aac Ice)''" "''? \"Aac\"'' = py_strip ''? \"Aac\"''"
  "''? NIL'' = py_strip ''? NIL''"
  by (simp_all add: py_strip_def py_isspace_def)

lemmas payload_eval =
  startswith_def error_line_def py_float_def float_space_def floatnumber_def number_def
  exponent_def digitpart_def is_digit_def lower_is_def lower_code_def queue_put_def
  remove_char_def fresh_fields Let_def

theorem reader_rules_in_order_witness:
  "is_ascii '';comment'' \<and> startswith (py_strip '';comment'') '';''
   \<and> fst (reader_body py_float '';comment'' fresh) = Continue
   \<and> resp_queue (snd (reader_body py_float '';comment'' fresh)) = []
   \<and> contains ''TERMINATE'' (py_strip ''\"TERMINATE\"'')
   \<and> stdout_reader py_float [''\"TERMINATE\"'', ''? NIL''] fresh
        = (Break, fresh\<lparr>received_messages := [''\"TERMINATE\"'']\<rparr>)
   \<and> contains ''Error:'' (py_strip ''> Error: boom'')
   \<and> resp_queue (snd (reader_body py_float ''> Error: boom'' fresh)) = [''HALT'']
   \<and> startswith (py_strip ''? 3.14'') ''?'' \<and> py_float (drop 2 (py_strip ''? 3.14''))
   \<and> fst (reader_body py_float ''? 3.14'' fresh) = Continue
   \<and> resp_queue (snd (reader_body py_float ''? 3.14'' fresh)) = []
   \<and> resp_queue (snd (reader_body py_float ''? (Aac Ice)'' fresh)) = [''(Aac Ice)'']
   \<and> resp_queue (snd (reader_body py_float ''? \"Aac\"'' fresh)) = [''Aac'']
   \<and> resp_queue (snd (reader_body py_float ''? NIL'' fresh)) = [''NIL'']"
proof -
  note s = example_lines_stripped[symmetric]
  have c1: "startswith '';comment'' '';''
   \<and> fst (reader_body py_float '';comment'' fresh) = Continue
   \<and> resp_queue (snd (reader_body py_float '';comment'' fresh)) = []"
    using reader_rules_in_order[OF example_lines_ascii(1) example_lines_stripped(1) refl refl,
        of py_float fresh]
    by (simp add: payload_eval)
  have c2: "contains ''TERMINATE'' ''\"TERMINATE\"''
   \<and> stdout_reader py_float [''\"TERMINATE\"'', ''? NIL''] fresh
        = (Break, fresh\<lparr>received_messages := [''\"TERMINATE\"'']\<rparr>)"
    using reader_rules_in_order[OF example_lines_ascii(2) example_lines_stripped(2) refl refl,
        of py_float fresh]
    by (simp add: payload_eval)
  have c3: "contains ''Error:'' ''> Error: boom''
   \<and> resp_queue (snd (reader_body py_float ''> Error: boom'' fresh)) = [''HALT'']"
    using reader_rules_in_order[OF example_lines_ascii(3) example_lines_stripped(3) refl refl,
        of py_float fresh]
    by (simp add: reader_eval)
  have c4: "startswith ''? 3.14'' ''?'' \<and> py_float (drop 2 ''? 3.14'')
   \<and> fst (reader_body py_float ''? 3.14'' fresh) = Continue
   \<and> resp_queue (snd (reader_body py_float ''? 3.14'' fresh)) = []"
    using reader_rules_in_order[OF example_lines_ascii(4) example_lines_stripped(4) refl refl,
        of py_float fresh]
    by (simp add: payload_eval)
  have c5: "resp_queue (snd (reader_body py_float ''? (Aac Ice)'' fresh)) = [''(Aac Ice)'']"
    using reader_rules_in_order[OF example_lines_ascii(5) example_lines_stripped(5) refl refl,
        of py_float fresh]
    by (simp add: payload_eval)
  have c6: "resp_queue (snd (reader_body py_float ''? \"Aac\"'' fresh)) = [''Aac'']"
    using reader_rules_in_order[OF example_lines_ascii(6) example_lines_stripped(6) refl refl,
        of py_float fresh]
    by (simp add: payload_eval)
  have c7: "resp_queue (snd (reader_body py_float ''? NIL'' fresh)) = [''NIL'']"
    using reader_rules_in_order[OF example_lines_ascii(7) example_lines_stripped(7) refl refl,
        of py_float fresh]
    by (simp add: payload_eval)
  from c1 c2 c3 c4 c5 c6 c7 show ?thesis
    by (simp only: s example_lines_ascii simp_thms)
qed

subsection \<open>Floating point\<close>

text \<open>Evaluation of the rounding on numerals.\<close>

lemma floor_rat_eval:
  "\<lfloor>(numeral a :: rat) / numeral b\<rfloor> = numeral a div numeral b"
  "\<lfloor>- ((numeral a :: rat) / numeral b)\<rfloor> = - numeral a div numeral b"
  "\<lfloor>(1 :: rat) / numeral b\<rfloor> = 1 div numeral b"
  "\<lfloor>- ((1 :: rat) / numeral b)\<rfloor> = - 1 div numeral b"
  using floor_divide_of_int_eq[of "numeral a" "numeral b", where ?'a = rat]
    floor_divide_of_int_eq[of "- numeral a" "numeral b", where ?'a = rat]
    floor_divide_of_int_eq[of 1 "numeral b", where ?'a = rat]
    floor_divide_of_int_eq[of "- 1" "numeral b", where ?'a = rat]
  by simp_all

lemmas float_eval =
  binary64_def floor_log2_def bit_length.simps pow2_def round_half_even_def Let_def
  float_sub_def float_add_def float_neg_def float_div_def
  float_of_int_def int_true_div_def summand_def floor_rat_eval ceiling_def

subsection \<open>Fitting objective\<close>

lemma query_all_length:
  "query_all s tasks = (Inr cands, s') \<Longrightarrow> length cands = length tasks"
  by (induction tasks arbitrary: s cands) (auto split: prod.splits sum.splits)

lemma premises_EA1: "construct_premises ''EA1'' = Inr (''No A are B'', ''All B are C'')"
  using construct_premises_valid[of "''EA1''"]
  by (simp add: spec_premises_def spec_figure_def spec_sentence_def)

lemma set_param_vec_queue:
  "valid s \<Longrightarrow> resp_queue (snd (set_param_vec s ps)) = resp_queue s"
  using set_param_vec_valid[of s ps] by auto

lemma valid_awaiting: "valid (awaiting es)"
  using valid_fresh by (simp add: valid_def awaiting_def)

lemmas query_eval =
  query_def queue_get_def send_def premises_AA1 premises_EA1 startswith_def
  conclusion_candidates_def remove_char_def py_split_def py_isspace_def
  set_param_vec_queue valid_awaiting awaiting_fields

subsection \<open>Multi-start fitting\<close>

lemma query_valid: "valid s \<Longrightarrow> kept s (snd (query s syllog))"
  using query_keeps[of s syllog] by (simp add: kept_def valid_def)

lemma kept_refl: "valid s \<Longrightarrow> kept s s"
  by (simp add: kept_def)

lemma kept_trans: "kept s s1 \<Longrightarrow> kept s1 s2 \<Longrightarrow> kept s s2"
  by (simp add: kept_def)

lemma kept_valid: "kept s s' \<Longrightarrow> valid s'"
  by (simp add: kept_def)

lemma fit_loop_kept: "valid s \<Longrightarrow> kept s (snd (fit_loop s xy acc))"
proof (induction xy arbitrary: s acc)
  case Nil
  then show ?case by (simp add: kept_refl)
next
  case (Cons p xy)
  obtain task resp where p: "p = (task, resp)" by (cases p)
  note k = query_valid[OF Cons.prems, of task]
  show ?case
  proof (cases "query s task")
    case (Pair r s1)
    with k have k1: "kept s s1" by simp
    show ?thesis
    proof (cases r)
      case (Inl e)
      with Pair k1 show ?thesis by (simp add: p)
    next
      case (Inr pred)
      show ?thesis
      proof (cases "summand pred resp")
        case (Inl e)
        with Pair \<open>r = Inr pred\<close> k1 show ?thesis by (simp add: p)
      next
        case (Inr x)
        from Cons.IH[OF kept_valid[OF k1], of "float_add acc x"] k1
        have "kept s (snd (fit_loop s1 xy (float_add acc x)))" by (rule kept_trans[rotated])
        with Pair \<open>r = Inr pred\<close> Inr show ?thesis by (simp add: p)
      qed
    qed
  qed
qed

lemma set_param_vec_kept: "valid s \<Longrightarrow> kept s (snd (set_param_vec s ps))"
  using set_param_vec_valid[of s ps] by (auto simp: kept_def)

lemma fit_fun_kept: "valid s \<Longrightarrow> kept s (snd (fit_fun s ps tx ty b))"
proof -
  assume v: "valid s"
  from set_param_vec_valid[OF v, of ps] obtain s1 where
    s1: "set_param_vec s ps = (Inr (), s1)" and v1: "valid s1"
    and d1: "default_params s1 = default_params s" by blast
  have k1: "kept s s1" using v1 d1 by (simp add: kept_def)
  note k2 = fit_loop_kept[OF v1, of "zip tx ty" "Finite 0"]
  show ?thesis
  proof (cases "fit_loop s1 (zip tx ty) (Finite 0)")
    case (Pair r s2)
    with k2 have "kept s1 s2" by simp
    with k1 have "kept s s2" by (rule kept_trans)
    with Pair show ?thesis
      by (simp add: fit_fun_def s1 split: sum.splits)
  qed
qed

lemma minimize_kept: "valid s \<Longrightarrow> kept s (snd (minimize m tx ty s))"
proof (induction m arbitrary: s)
  case (Finish r)
  then show ?case by (simp add: kept_refl)
next
  case (Evaluate p k)
  note k1 = fit_fun_kept[OF Evaluate.prems, of p tx ty False]
  show ?case
  proof (cases "fit_fun s p tx ty False")
    case (Pair r s1)
    with k1 have ks: "kept s s1" by simp
    show ?thesis
    proof (cases r)
      case (Inl e)
      with Pair ks show ?thesis by simp
    next
      case (Inr vp)
      obtain v ps where vp: "vp = (v, ps)" by (cases vp)
      have "k v \<in> range k" by simp
      from Evaluate.IH[OF this kept_valid[OF ks]] ks Pair Inr vp show ?thesis
        by (auto intro: kept_trans)
    qed
  qed
qed

lemma fit_runs_kept: "valid s \<Longrightarrow> kept s (snd (fit_runs s opt tx ty idxs results))"
proof (induction idxs arbitrary: s results)
  case Nil
  then show ?case by (simp add: kept_refl)
next
  case (Cons idx idxs)
  note k1 = minimize_kept[OF Cons.prems, of "opt idx" tx ty]
  show ?case
  proof (cases "minimize (opt idx) tx ty s")
    case (Pair r s1)
    with k1 have ks: "kept s s1" by simp
    show ?thesis
    proof (cases r)
      case (Inl e)
      with Pair ks show ?thesis by simp
    next
      case (Inr res)
      from Cons.IH[OF kept_valid[OF ks]] ks Pair Inr show ?thesis
        by (auto intro: kept_trans)
    qed
  qed
qed

text \<open>
  When no run of the optimizer succeeds and \<open>num_fits\<close> is not 0, the guard
  \<open>len(results) != num_fits\<close> is open and \<open>fit\<close> takes the branch that its comment
  announces (``If all fits unsuccessful, use default parameters''): it sets every
  stored parameter to its default value and returns the score -1 with the default
  parameter vector, in the order epsilon, lambda, omega, sigma. A negative \<open>num_fits\<close>
  makes no run and takes this branch too.
\<close>

lemma fit_fallback:
  assumes "valid s" and "num_fits \<noteq> 0"
    and "fit_runs s opt train_x train_y [0..<nat num_fits] [] = (Inr [], s1)"
  shows "\<exists>s2. fit s opt train_x train_y num_fits = (Inr (- 1, map snd (default_params s)), s2)
              \<and> params s2 = default_params s \<and> default_params s2 = default_params s
              \<and> map fst (default_params s) = param_names"
proof -
  from fit_runs_kept[OF assms(1), of opt train_x train_y "[0..<nat num_fits]" "[]"] assms(3)
  have k: "kept s s1" by simp
  then have v1: "valid s1" and d1: "default_params s1 = default_params s"
    by (simp_all add: kept_def)
  from set_params_defaults[OF v1] obtain s2 where
    s2: "set_params s1 (default_params s1) = (Inr (), s2)" and p2: "params s2 = default_params s1"
    and d2: "default_params s2 = default_params s1" by blast
  have v2: "valid s2" using v1 p2 d2 by (simp add: valid_def)
  from lookup_all_defaults[OF v2] d2 d1
  have l: "lookup_all (default_params s2) param_names = Inr (map snd (default_params s))" by simp
  from assms(2) have "fit s opt train_x train_y num_fits = (Inr (- 1, map snd (default_params s)), s2)"
    by (simp add: fit_def assms(3) s2 l)
  with p2 d2 d1 assms(1) show ?thesis by (simp add: valid_def)
qed

text \<open>
  An optimizer run that evaluates the objective once and gives up, on an object whose
  next answer from the engine is NIL.
\<close>

lemma fit_fun_nil:
  assumes "valid s" and "resp_queue s = ''NIL'' # q"
  shows "\<exists>s'. fit_fun s ps [''AA1''] [''Aac''] False = (Inr (Finite 1, None), s')
              \<and> valid s' \<and> resp_queue s' = q"
proof -
  from set_param_vec_valid[OF assms(1), of ps] assms(2) obtain s1 where
    s1: "set_param_vec s ps = (Inr (), s1)" and v1: "valid s1"
    and q1: "resp_queue s1 = ''NIL'' # q" by auto
  have "contains ''NULL-INTENSION'' ''NIL'' \<or> ''NIL'' = ''NIL''" by simp
  from query_null[OF premises_AA1 q1 contains_NIL this]
  have q: "query s1 ''AA1'' =
     (Inr [''NVC''],
      s1\<lparr>executed_commands := executed_commands s1 @ [generation_cmd ''All A are B'' ''All B are C''],
        resp_queue := q\<rparr>)" .
  have "fit_fun s ps [''AA1''] [''Aac''] False =
     (Inr (Finite 1, None),
      s1\<lparr>executed_commands := executed_commands s1 @ [generation_cmd ''All A are B'' ''All B are C''],
        resp_queue := q\<rparr>)"
    by (simp add: fit_fun_def s1 q float_eval)
  with v1 show ?thesis by (simp add: valid_def)
qed

text \<open>
  Two invocations that take the fallback: two runs that both fail, and
  \<open>num_fits = -1\<close>, which makes no run.
\<close>

lemma fit_fallback_examples:
  "fst (fit (awaiting [''NIL'', ''NIL''])
            (\<lambda>idx. Evaluate [1 / 2, 2, 1 / 2, 1 / 2]
                     (\<lambda>v. Finish (OptimizeResult False 1 [1 / 2, 2, 1 / 2, 1 / 2])))
            [''AA1''] [''Aac''] 2) = Inr (- 1, [0, 4, 1, 0])
   \<and> params (snd (fit (awaiting [''NIL'', ''NIL''])
            (\<lambda>idx. Evaluate [1 / 2, 2, 1 / 2, 1 / 2]
                     (\<lambda>v. Finish (OptimizeResult False 1 [1 / 2, 2, 1 / 2, 1 / 2])))
            [''AA1''] [''Aac''] 2))
       = [(''epsilon'', 0), (''lambda'', 4), (''omega'', 1), (''sigma'', 0)]
   \<and> fst (fit fresh (\<lambda>idx. Finish (OptimizeResult False 0 [])) [''AA1''] [''Aac''] (- 1))
       = Inr (- 1, [0, 4, 1, 0])"
proof -
  let ?s = "awaiting [''NIL'', ''NIL'']"
  let ?ps = "[1 / 2, 2, 1 / 2, 1 / 2] :: rat list"
  let ?opt = "\<lambda>idx :: nat. Evaluate ?ps (\<lambda>v. Finish (OptimizeResult False 1 ?ps))"
  let ?none = "\<lambda>idx :: nat. Finish (OptimizeResult False 0 [])"
  have u: "[0..<nat 2] = [0, 1]" by (simp add: upt_rec)
  from fit_fun_nil[OF valid_awaiting, of "[''NIL'', ''NIL'']" "[''NIL'']" ?ps] obtain sa where
    a: "fit_fun ?s ?ps [''AA1''] [''Aac''] False = (Inr (Finite 1, None), sa)"
    and va: "valid sa" and qa: "resp_queue sa = [''NIL'']"
    by (auto simp: awaiting_fields)
  from fit_fun_nil[OF va qa, of ?ps] obtain sb where
    b: "fit_fun sa ?ps [''AA1''] [''Aac''] False = (Inr (Finite 1, None), sb)"
    by auto
  have runs: "fit_runs ?s ?opt [''AA1''] [''Aac''] [0..<nat 2] [] = (Inr [], sb)"
    unfolding u by (simp add: a b)
  from fit_fallback[OF valid_awaiting _ runs] obtain s2 where
    "fit ?s ?opt [''AA1''] [''Aac''] 2 = (Inr (- 1, map snd (default_params ?s)), s2)"
    and "params s2 = default_params ?s"
    by auto
  moreover have "fit_runs fresh ?none [''AA1''] [''Aac''] [0..<nat (- 1)] [] = (Inr [], fresh)"
    by simp
  from fit_fallback[OF valid_fresh _ this] obtain s3 where
    "fit fresh ?none [''AA1''] [''Aac''] (- 1) = (Inr (- 1, map snd (default_params fresh)), s3)"
    by auto
  ultimately show ?thesis
    by (simp add: awaiting_fields fresh_fields factory_defaults_def)
qed

text \<open>
  Claim C7. When all \<open>num_fits\<close> runs of the local optimizer fail, \<open>fit\<close> is to set
  the parameters back to their defaults and to return the sentinel score with the
  default vector. With \<open>num_fits = 0\<close> no run is made and none succeeds, so the list of
  results is empty; but the fallback is nested under \<open>len(results) != num_fits\<close>,
  which is false when both are 0, and \<open>fit\<close> goes on to \<open>sorted(results, ...)[0]\<close>,
  which raises IndexError on the empty list. The parameters are left as they were.
\<close>

theorem fit_zero_runs_index_error:
  "fst (fit_runs fresh (\<lambda>idx. Finish (OptimizeResult False 0 [])) [''AA1''] [''Aac''] [0..<nat 0] [])
     = Inr []
   \<and> fit fresh (\<lambda>idx. Finish (OptimizeResult False 0 [])) [''AA1''] [''Aac''] 0
     = (Inl IndexError, fresh)"
  by (simp add: fit_def)

end
